theory Spec2Isabelle
  imports Complex_Main "HOL-Library.Sublist" "HOL-Library.Word"
begin

section \<open>The page as the scroll handler sees it\<close>

text \<open>
  The scroll spy reads the page through two platform calls only:
  \<^verbatim>\<open>document.getElementById(id)\<close> and \<^verbatim>\<open>el.getBoundingClientRect().top\<close>.
  An element is therefore modelled by the one number the handler reads from it, the
  distance of its top edge from the top of the viewport, and a document by the element
  (if any) that carries each identifier. The offsets are finite JavaScript numbers; the
  handler only compares them and takes the sign of their difference, which for finite
  doubles is the sign of the exact difference, so they are modelled as reals.
\<close>

record element =
  rect_top :: real

type_synonym document = "string \<Rightarrow> element option"

text \<open>
  \<^verbatim>\<open>getElementById\<close> returns null when no element carries the identifier. An element
  never has the empty string as its identifier, so the empty string finds nothing.
\<close>

definition getElementById :: "document \<Rightarrow> string \<Rightarrow> element option" where
  "getElementById doc i = (if i = [] then None else doc i)"

datatype js_error = TypeError

text \<open>Calling a method on null throws a TypeError.\<close>

definition getBoundingClientRect_top :: "element option \<Rightarrow> js_error + real" where
  "getBoundingClientRect_top el =
     (case el of None \<Rightarrow> Inl TypeError | Some e \<Rightarrow> Inr (rect_top e))"

section \<open>useScrollSpy\<close>

text \<open>
  \<^verbatim>\<open>
  function useScrollSpy(sectionIds, offset = 120) {
    const [active, setActive] = useState(sectionIds[0] || "");
    useEffect(() => {
      const handler = () => {
        const positions = sectionIds
          .map((id) => {
            const el = document.getElementById(id);
            if (!el) return null;
            const top = el.getBoundingClientRect().top;
            return { id, top };
          })
          .filter(Boolean);
        const current = positions
          .filter((p) => p.top <= offset)
          .sort((a, b) => b.top - a.top)[0];
        if (current?.id) setActive(current.id);
      };
      handler();
      window.addEventListener("scroll", handler, { passive: true });
      ...
  \<close>
\<close>

record position =
  pos_id :: string
  pos_top :: real

definition default_offset :: real where
  "default_offset = 120"

text \<open>The initial state: \<^verbatim>\<open>sectionIds[0] || ""\<close>.\<close>

definition initial_active :: "string list \<Rightarrow> string" where
  "initial_active sectionIds =
     (case sectionIds of
        [] \<Rightarrow> []
      | first # _ \<Rightarrow> if first \<noteq> [] then first else [])"

text \<open>The callback of \<^verbatim>\<open>.map\<close>: null for a missing element, the pair otherwise.\<close>

definition position_of :: "document \<Rightarrow> string \<Rightarrow> js_error + position option" where
  "position_of doc i =
     (let el = getElementById doc i in
      if el = None then Inr None
      else (case getBoundingClientRect_top el of
              Inl e \<Rightarrow> Inl e
            | Inr t \<Rightarrow> Inr (Some \<lparr>pos_id = i, pos_top = t\<rparr>)))"

fun map_positions :: "document \<Rightarrow> string list \<Rightarrow> js_error + position option list" where
  "map_positions doc [] = Inr []"
| "map_positions doc (i # rest) =
     (case position_of doc i of
        Inl e \<Rightarrow> Inl e
      | Inr p \<Rightarrow> (case map_positions doc rest of
                   Inl e \<Rightarrow> Inl e
                 | Inr ps \<Rightarrow> Inr (p # ps)))"

text \<open>\<^verbatim>\<open>.filter(Boolean)\<close> drops the nulls.\<close>

fun filter_Boolean :: "'a option list \<Rightarrow> 'a list" where
  "filter_Boolean [] = []"
| "filter_Boolean (None # xs) = filter_Boolean xs"
| "filter_Boolean (Some x # xs) = x # filter_Boolean xs"

text \<open>The array \<^verbatim>\<open>positions\<close>: the map, then the filter.\<close>

definition positions :: "document \<Rightarrow> string list \<Rightarrow> js_error + position list" where
  "positions doc sectionIds =
     (case map_positions doc sectionIds of
        Inl e \<Rightarrow> Inl e
      | Inr raw \<Rightarrow> Inr (filter_Boolean raw))"

text \<open>
  \<^verbatim>\<open>.filter((p) => p.top <= offset).sort((a, b) => b.top - a.top)[0]\<close>: the sort is
  stable and descending in \<open>top\<close>, which is a stable ascending sort on the negated
  offset; \<open>[0]\<close> of an empty array is undefined.
\<close>

definition current :: "real \<Rightarrow> position list \<Rightarrow> position option" where
  "current offset ps =
     (case sort_key (\<lambda>p. - pos_top p) (filter (\<lambda>p. pos_top p \<le> offset) ps) of
        [] \<Rightarrow> None
      | p # _ \<Rightarrow> Some p)"

text \<open>
  One run of the handler, from the active identifier before it to the one after it:
  \<^verbatim>\<open>if (current?.id) setActive(current.id)\<close>.
\<close>

definition handler :: "document \<Rightarrow> string list \<Rightarrow> real \<Rightarrow> string \<Rightarrow> js_error + string" where
  "handler doc sectionIds offset active =
     (case positions doc sectionIds of
        Inl e \<Rightarrow> Inl e
      | Inr ps \<Rightarrow>
          (case current offset ps of
             None \<Rightarrow> Inr active
           | Some p \<Rightarrow> if pos_id p \<noteq> [] then Inr (pos_id p) else Inr active))"

text \<open>
  The handler runs once when the hook mounts and once for every scroll event, each run
  on the page as it is then. \<open>docs\<close> lists those pages in order.
\<close>

fun scroll_events :: "string list \<Rightarrow> real \<Rightarrow> document list \<Rightarrow> string \<Rightarrow> js_error + string" where
  "scroll_events sectionIds offset [] active = Inr active"
| "scroll_events sectionIds offset (doc # docs) active =
     (case handler doc sectionIds offset active of
        Inl e \<Rightarrow> Inl e
      | Inr active' \<Rightarrow> scroll_events sectionIds offset docs active')"

definition useScrollSpy :: "string list \<Rightarrow> real \<Rightarrow> document list \<Rightarrow> js_error + string" where
  "useScrollSpy sectionIds offset docs =
     scroll_events sectionIds offset docs (initial_active sectionIds)"

section \<open>CommandPalette: the search results\<close>

text \<open>
  \<^verbatim>\<open>
  const results = useMemo(() => {
    const query = q.trim().toLowerCase();
    const sec = sections
      .map((s) => ({ type: "section", id: s.id, label: s.label }))
      .filter((x) => (query ? x.label.toLowerCase().includes(query) : true));
    const proj = projects
      .map((p) => ({ type: "project", id: p.id, label: p.name }))
      .filter((x) => (query ? x.label.toLowerCase().includes(query) : true));
    return [...sec, ...proj].slice(0, 10);
  }, [q, sections, projects]);
  \<close>
  The query, the labels and the names go through \<^verbatim>\<open>trim\<close>, \<^verbatim>\<open>toLowerCase\<close> and
  \<^verbatim>\<open>includes\<close>, which work on the UTF-16 code units of a JavaScript string, so these
  are lists of 16-bit words. Identifiers and the type tag are only copied. Of a section
  and of a project the search reads two fields each; the other fields of a project are
  left out.
\<close>

type_synonym code_unit = "16 word"

type_synonym js_string = "code_unit list"

text \<open>The JavaScript string of an ASCII literal: one code unit for each character.\<close>

definition ascii :: "string \<Rightarrow> js_string" where
  "ascii s = map of_char s"

record nav_section =
  section_id :: string
  section_label :: js_string

record project =
  project_id :: string
  project_name :: js_string

record result =
  result_type :: string
  result_id :: string
  result_label :: js_string

text \<open>
  \<^verbatim>\<open>String.prototype.trim\<close> removes white space and line terminators from both ends.
  White space is tab, vertical tab, form feed, U+FEFF and the space separators of
  Unicode (U+0020, U+00A0, U+1680, U+2000 to U+200A, U+202F, U+205F, U+3000); the line
  terminators are line feed, carriage return, U+2028 and U+2029. Each is one code unit.
\<close>

definition is_whitespace :: "code_unit \<Rightarrow> bool" where
  "is_whitespace c =
     (c \<in> set [0x0009, 0x000A, 0x000B, 0x000C, 0x000D, 0x0020, 0x00A0, 0x1680,
                0x2028, 0x2029, 0x202F, 0x205F, 0x3000, 0xFEFF]
      \<or> (0x2000 \<le> c \<and> c \<le> 0x200A))"

definition trim :: "js_string \<Rightarrow> js_string" where
  "trim s = rev (dropWhile is_whitespace (rev (dropWhile is_whitespace s)))"

text \<open>
  \<^verbatim>\<open>String.prototype.toLowerCase\<close> follows the case mappings of the Unicode tables
  of the engine. On a string of ASCII code units only, the result does not depend on
  those tables: A to Z become a to z and nothing else changes. The tables are not part
  of the repository; the mapping they give is the parameter \<open>unicode_lower\<close>, which
  is asked for every string that has a code unit outside ASCII.
\<close>

definition is_ascii :: "code_unit \<Rightarrow> bool" where
  "is_ascii c = (c \<le> 0x7F)"

definition toLowerCase_ascii :: "code_unit \<Rightarrow> code_unit" where
  "toLowerCase_ascii c = (if 0x41 \<le> c \<and> c \<le> 0x5A then c + 0x20 else c)"

definition toLowerCase :: "(js_string \<Rightarrow> js_string) \<Rightarrow> js_string \<Rightarrow> js_string" where
  "toLowerCase unicode_lower s =
     (if list_all is_ascii s then map toLowerCase_ascii s else unicode_lower s)"

text \<open>
  \<^verbatim>\<open>s.includes(query)\<close>: the query starts at some position of \<open>s\<close>. The empty query
  is included in every string.
\<close>

fun js_includes :: "js_string \<Rightarrow> js_string \<Rightarrow> bool" where
  "js_includes [] query = (query = [])"
| "js_includes (c # s) query = (prefix query (c # s) \<or> js_includes s query)"

text \<open>The two callbacks of \<^verbatim>\<open>.map\<close> and the callback of both \<^verbatim>\<open>.filter\<close> calls.\<close>

definition section_result :: "nav_section \<Rightarrow> result" where
  "section_result s =
     \<lparr>result_type = ''section'', result_id = section_id s, result_label = section_label s\<rparr>"

definition project_result :: "project \<Rightarrow> result" where
  "project_result p =
     \<lparr>result_type = ''project'', result_id = project_id p, result_label = project_name p\<rparr>"

definition matches_query :: "(js_string \<Rightarrow> js_string) \<Rightarrow> js_string \<Rightarrow> result \<Rightarrow> bool" where
  "matches_query unicode_lower query x =
     (if query \<noteq> []
      then js_includes (toLowerCase unicode_lower (result_label x)) query
      else True)"

definition sec :: "(js_string \<Rightarrow> js_string) \<Rightarrow> js_string \<Rightarrow> nav_section list \<Rightarrow> result list" where
  "sec unicode_lower query sections =
     filter (matches_query unicode_lower query) (map section_result sections)"

definition proj :: "(js_string \<Rightarrow> js_string) \<Rightarrow> js_string \<Rightarrow> project list \<Rightarrow> result list" where
  "proj unicode_lower query projects =
     filter (matches_query unicode_lower query) (map project_result projects)"

definition results ::
  "(js_string \<Rightarrow> js_string) \<Rightarrow> js_string \<Rightarrow> nav_section list \<Rightarrow> project list \<Rightarrow> result list" where
  "results unicode_lower q sections projects =
     (let query = toLowerCase unicode_lower (trim q)
      in take 10 (sec unicode_lower query sections @ proj unicode_lower query projects))"

section \<open>CommandPalette: open, closed and the query text\<close>

text \<open>
  The application holds \<^verbatim>\<open>paletteOpen\<close>, the palette holds the query \<^verbatim>\<open>q\<close>:
  \<^verbatim>\<open>
  const [q, setQ] = useState("");
  useEffect(() => { if (!open) setQ(""); }, [open]);
  if (!open) return null;
  \<close>
  Ctrl/Cmd+K and the search button call \<^verbatim>\<open>setPaletteOpen(true)\<close>. Escape (its listener
  is attached only while the palette is open), a click on the backdrop and the choice of
  a result call \<^verbatim>\<open>onClose\<close>, which is \<^verbatim>\<open>setPaletteOpen(false)\<close>. Typing calls
  \<^verbatim>\<open>setQ(e.target.value)\<close>. The backdrop, the results and the input are rendered only
  while the palette is open, so their events do nothing to a closed palette. The
  palette only stores and resets the query text here, so it is kept as a plain string.
\<close>

record palette =
  paletteOpen :: bool
  palette_q :: string

datatype palette_event =
  ShortcutK | SearchButton | Escape | BackdropClick | SelectResult result | Typing string

fun dispatch :: "palette \<Rightarrow> palette_event \<Rightarrow> palette" where
  "dispatch s ShortcutK = s\<lparr>paletteOpen := True\<rparr>"
| "dispatch s SearchButton = s\<lparr>paletteOpen := True\<rparr>"
| "dispatch s Escape = (if paletteOpen s then s\<lparr>paletteOpen := False\<rparr> else s)"
| "dispatch s BackdropClick = (if paletteOpen s then s\<lparr>paletteOpen := False\<rparr> else s)"
| "dispatch s (SelectResult r) = (if paletteOpen s then s\<lparr>paletteOpen := False\<rparr> else s)"
| "dispatch s (Typing t) = (if paletteOpen s then s\<lparr>palette_q := t\<rparr> else s)"

text \<open>The effect \<^verbatim>\<open>if (!open) setQ("")\<close>; it runs at mount and whenever \<open>open\<close> changed.\<close>

definition reset_effect :: "palette \<Rightarrow> palette" where
  "reset_effect s = (if \<not> paletteOpen s then s\<lparr>palette_q := []\<rparr> else s)"

definition palette_step :: "palette \<Rightarrow> palette_event \<Rightarrow> palette" where
  "palette_step s ev =
     (let s' = dispatch s ev
      in if paletteOpen s' \<noteq> paletteOpen s then reset_effect s' else s')"

definition palette_mount :: palette where
  "palette_mount = reset_effect \<lparr>paletteOpen = False, palette_q = []\<rparr>"

definition palette_run :: "palette_event list \<Rightarrow> palette" where
  "palette_run evs = foldl palette_step palette_mount evs"

section \<open>The theme\<close>

text \<open>
  The application of the single-file component:
  \<^verbatim>\<open>
  const [dark, setDark] = useState(false);
  useEffect(() => {
    const stored = window.localStorage.getItem("theme");
    const initial = stored ? stored === "dark"
      : window.matchMedia?.("(prefers-color-scheme: dark)")?.matches;
    setDark(!!initial);
  }, []);
  useEffect(() => {
    const root = document.documentElement;
    if (dark) root.classList.add("dark");
    else root.classList.remove("dark");
    window.localStorage.setItem("theme", dark ? "dark" : "light");
  }, [dark]);
  ...
  onClick={() => setDark((v) => !v)}
  \<close>
  The browser is its local storage and \<^verbatim>\<open>window.matchMedia\<close>, which may be missing.
\<close>

record media_query_list =
  matches :: bool

type_synonym storage = "string \<Rightarrow> string option"

type_synonym match_media = "(string \<Rightarrow> media_query_list option) option"

record app_state =
  dark :: bool
  root_has_dark_class :: bool
  localStorage :: storage

text \<open>The value \<^verbatim>\<open>!!initial\<close> of the first effect.\<close>

definition initial_dark :: "storage \<Rightarrow> match_media \<Rightarrow> bool" where
  "initial_dark ls matchMedia =
     (let stored = ls ''theme'';
          initial =
            (if stored \<noteq> None \<and> stored \<noteq> Some []
             then Some (stored = Some ''dark'')
             else (case matchMedia of
                     None \<Rightarrow> None
                   | Some mm \<Rightarrow>
                       (case mm ''(prefers-color-scheme: dark)'' of
                          None \<Rightarrow> None
                        | Some l \<Rightarrow> Some (matches l))))
      in (case initial of None \<Rightarrow> False | Some b \<Rightarrow> b))"

text \<open>The second effect, for the value of \<open>dark\<close> it was rendered with.\<close>

definition theme_effect :: "bool \<Rightarrow> app_state \<Rightarrow> app_state" where
  "theme_effect d s =
     s\<lparr>root_has_dark_class := d,
       localStorage := (localStorage s)(''theme'' \<mapsto> (if d then ''dark'' else ''light''))\<rparr>"

text \<open>
  Mount: the first render has \<open>dark = false\<close>; both effects run, the first reading the
  storage as the page load found it; if the first effect changed \<open>dark\<close>, the second runs
  again after the next render.
\<close>

definition App_mount :: "storage \<Rightarrow> match_media \<Rightarrow> app_state" where
  "App_mount ls matchMedia =
     (let s0 = \<lparr>dark = False, root_has_dark_class = False, localStorage = ls\<rparr>;
          d = initial_dark (localStorage s0) matchMedia;
          s1 = theme_effect (dark s0) s0
      in if d \<noteq> dark s0 then theme_effect d (s1\<lparr>dark := d\<rparr>) else s1)"

definition App_toggle :: "app_state \<Rightarrow> app_state" where
  "App_toggle s = (let v = \<not> dark s in theme_effect v (s\<lparr>dark := v\<rparr>))"

text \<open>
  The application of \<^verbatim>\<open>src/App.jsx\<close>:
  \<^verbatim>\<open>
  const [dark, setDark] = useState(true);
  useEffect(() => {
    document.documentElement.classList.toggle("dark", dark);
  }, [dark]);
  ...
  onClick={() => setDark(!dark)}
  \<close>
  It neither reads nor writes the storage, and never calls \<^verbatim>\<open>matchMedia\<close>.
\<close>

definition App_jsx_mount :: "storage \<Rightarrow> match_media \<Rightarrow> app_state" where
  "App_jsx_mount ls matchMedia =
     \<lparr>dark = True, root_has_dark_class = True, localStorage = ls\<rparr>"

definition App_jsx_toggle :: "app_state \<Rightarrow> app_state" where
  "App_jsx_toggle s = (let v = \<not> dark s in s\<lparr>dark := v, root_has_dark_class := v\<rparr>)"

section \<open>Facts about the handler\<close>

lemma position_of_eq:
  "position_of doc i =
     Inr (map_option (\<lambda>e. \<lparr>pos_id = i, pos_top = rect_top e\<rparr>) (getElementById doc i))"
  by (cases "getElementById doc i")
     (simp_all add: position_of_def getBoundingClientRect_top_def)

lemma map_positions_eq:
  "map_positions doc sectionIds =
     Inr (map (\<lambda>i. map_option (\<lambda>e. \<lparr>pos_id = i, pos_top = rect_top e\<rparr>)
                  (getElementById doc i)) sectionIds)"
  by (induction sectionIds) (simp_all add: position_of_eq)

lemma set_filter_Boolean: "set (filter_Boolean xs) = {x. Some x \<in> set xs}"
  by (induction xs rule: filter_Boolean.induct) auto

text \<open>The handler's positions never fail, and they are the sections that have an element.\<close>

lemma positions_total: "\<exists>ps. positions doc sectionIds = Inr ps"
  by (simp add: positions_def map_positions_eq)

lemma set_positions:
  assumes "positions doc sectionIds = Inr ps"
  shows "set ps = {\<lparr>pos_id = i, pos_top = rect_top e\<rparr> | i e.
                    i \<in> set sectionIds \<and> getElementById doc i = Some e}"
proof -
  have "Some x \<in> (\<lambda>i. map_option (\<lambda>e. \<lparr>pos_id = i, pos_top = rect_top e\<rparr>)
                  (getElementById doc i)) ` set sectionIds \<longleftrightarrow>
        (\<exists>i e. x = \<lparr>pos_id = i, pos_top = rect_top e\<rparr> \<and> i \<in> set sectionIds \<and>
               getElementById doc i = Some e)" for x
    by (auto simp: image_iff eq_commute [of "Some x"])
  with assms show ?thesis
    by (auto simp: positions_def map_positions_eq set_filter_Boolean)
qed

lemma current_None: "current offset ps = None \<longleftrightarrow> (\<forall>p\<in>set ps. \<not> pos_top p \<le> offset)"
proof -
  have "current offset ps = None \<longleftrightarrow>
        sort_key (\<lambda>p. - pos_top p) (filter (\<lambda>p. pos_top p \<le> offset) ps) = []"
    by (simp add: current_def split: list.splits)
  also have "\<dots> \<longleftrightarrow> set (sort_key (\<lambda>p. - pos_top p) (filter (\<lambda>p. pos_top p \<le> offset) ps)) = {}"
    by (simp only: set_empty)
  also have "\<dots> \<longleftrightarrow> (\<forall>p\<in>set ps. \<not> pos_top p \<le> offset)"
    by auto
  finally show ?thesis .
qed

lemma current_Some:
  assumes "current offset ps = Some p"
  shows "p \<in> set ps" and "pos_top p \<le> offset"
    and "\<forall>q\<in>set ps. pos_top q \<le> offset \<longrightarrow> pos_top q \<le> pos_top p"
proof -
  let ?s = "sort_key (\<lambda>p. - pos_top p) (filter (\<lambda>p. pos_top p \<le> offset) ps)"
  from assms obtain rest where s: "?s = p # rest"
    by (auto simp: current_def split: list.splits)
  have "p \<in> set ?s" by (simp only: s) simp
  then show "p \<in> set ps" and "pos_top p \<le> offset" by auto
  have "sorted (map (\<lambda>p. - pos_top p) ?s)" by (rule sorted_sort_key)
  then have "\<forall>q\<in>set rest. - pos_top p \<le> - pos_top q"
    by (simp only: s) simp
  moreover have "set ?s = insert p (set rest)" by (simp only: s) simp
  ultimately have "\<forall>q\<in>set ?s. pos_top q \<le> pos_top p" by auto
  then show "\<forall>q\<in>set ps. pos_top q \<le> offset \<longrightarrow> pos_top q \<le> pos_top p" by auto
qed

text \<open>What one run of the handler does, by cases on whether a section qualifies.\<close>

lemma handler_none_qualify:
  assumes "\<forall>i\<in>set sectionIds. \<forall>e. getElementById doc i = Some e \<longrightarrow> \<not> rect_top e \<le> offset"
  shows "handler doc sectionIds offset active = Inr active"
proof -
  obtain ps where ps: "positions doc sectionIds = Inr ps"
    using positions_total by blast
  have "\<forall>p\<in>set ps. \<not> pos_top p \<le> offset"
    using assms by (auto simp: set_positions [OF ps])
  then have "current offset ps = None" by (simp add: current_None)
  then show ?thesis by (simp add: handler_def ps)
qed

lemma handler_some_qualify:
  assumes "i \<in> set sectionIds" and "getElementById doc i = Some e" and "rect_top e \<le> offset"
  shows "\<exists>a e'. handler doc sectionIds offset active = Inr a \<and> a \<in> set sectionIds \<and>
            getElementById doc a = Some e' \<and> rect_top e' \<le> offset \<and>
            (\<forall>j\<in>set sectionIds. \<forall>e''. getElementById doc j = Some e'' \<and> rect_top e'' \<le> offset
                \<longrightarrow> rect_top e'' \<le> rect_top e')"
proof -
  obtain ps where ps: "positions doc sectionIds = Inr ps"
    using positions_total by blast
  note sp = set_positions [OF ps]
  have "\<lparr>pos_id = i, pos_top = rect_top e\<rparr> \<in> set ps"
    using assms by (auto simp: sp)
  moreover have "pos_top \<lparr>pos_id = i, pos_top = rect_top e\<rparr> \<le> offset"
    using assms(3) by simp
  ultimately have "\<not> (\<forall>p\<in>set ps. \<not> pos_top p \<le> offset)"
    by blast
  then have "current offset ps \<noteq> None"
    by (simp only: current_None) simp
  then obtain p where p: "current offset ps = Some p" by blast
  from current_Some [OF p] have pin: "p \<in> set ps" and ple: "pos_top p \<le> offset"
    and pmax: "\<forall>q\<in>set ps. pos_top q \<le> offset \<longrightarrow> pos_top q \<le> pos_top p"
    by blast+
  from pin obtain a e' where pa: "p = \<lparr>pos_id = a, pos_top = rect_top e'\<rparr>"
    and ain: "a \<in> set sectionIds" and ae: "getElementById doc a = Some e'"
    by (auto simp: sp)
  from ae have "a \<noteq> []" by (auto simp: getElementById_def split: if_splits)
  then have h: "handler doc sectionIds offset active = Inr a"
    by (simp add: handler_def ps p pa)
  have "rect_top e'' \<le> rect_top e'"
    if "j \<in> set sectionIds" "getElementById doc j = Some e''" "rect_top e'' \<le> offset" for j e''
  proof -
    have "\<lparr>pos_id = j, pos_top = rect_top e''\<rparr> \<in> set ps" using that by (auto simp: sp)
    with pmax that(3) show ?thesis by (auto simp: pa)
  qed
  with h ain ae ple show ?thesis by (auto simp: pa)
qed

lemma handler_member:
  assumes "active \<in> set sectionIds"
  shows "\<exists>a. handler doc sectionIds offset active = Inr a \<and> a \<in> set sectionIds"
proof (cases "\<exists>i\<in>set sectionIds. \<exists>e. getElementById doc i = Some e \<and> rect_top e \<le> offset")
  case True
  then obtain i e where "i \<in> set sectionIds" "getElementById doc i = Some e" "rect_top e \<le> offset"
    by blast
  from handler_some_qualify [OF this] show ?thesis by blast
next
  case False
  then have "handler doc sectionIds offset active = Inr active"
    by (intro handler_none_qualify) blast
  with assms show ?thesis by simp
qed

lemma scroll_events_member:
  assumes "active \<in> set sectionIds"
  shows "\<exists>a. scroll_events sectionIds offset docs active = Inr a \<and> a \<in> set sectionIds"
  using assms
proof (induction docs arbitrary: active)
  case Nil
  then show ?case by simp
next
  case (Cons doc docs)
  from handler_member [OF Cons.prems] obtain a
    where a: "handler doc sectionIds offset active = Inr a" "a \<in> set sectionIds" by blast
  from Cons.IH [OF a(2)] show ?case by (simp add: a(1))
qed

lemma initial_active_Cons: "initial_active (first # rest) = first"
  by (simp add: initial_active_def)

lemma handler_skips_missing:
  assumes "getElementById doc i = None"
  shows "handler doc sectionIds offset active = handler doc (removeAll i sectionIds) offset active"
proof -
  have "positions doc sectionIds = positions doc (removeAll i sectionIds)"
    using assms
    by (induction sectionIds)
       (auto simp: positions_def map_positions_eq map_option_case split: option.split)
  then show ?thesis by (simp add: handler_def)
qed

lemma scroll_events_empty: "scroll_events [] offset docs active = Inr active"
  by (induction docs) (simp_all add: handler_def positions_def current_def)

lemma scroll_events_none_qualify:
  assumes "\<forall>doc\<in>set docs. \<forall>i\<in>set sectionIds. \<forall>e.
             getElementById doc i = Some e \<longrightarrow> \<not> rect_top e \<le> offset"
  shows "scroll_events sectionIds offset docs active = Inr active"
  using assms by (induction docs) (simp_all add: handler_none_qualify)

section \<open>Claims about the scroll spy\<close>

text \<open>
  C1. Whenever some configured section has an element whose top edge is at or below the
  offset, one run of the handler sets the active identifier to a configured section
  that has an element at or below the offset, and no configured section at or below the
  offset has a larger top edge. In particular, with sections about and skills at
  \<open>-50\<close> and \<open>30\<close> and the offset \<open>120\<close>, skills becomes active, whatever was active
  before.
\<close>

theorem scroll_spy_selects_largest_qualifying:
  "((\<exists>i\<in>set sectionIds. \<exists>e. getElementById doc i = Some e \<and> rect_top e \<le> offset) \<longrightarrow>
      (\<exists>a e. handler doc sectionIds offset active = Inr a \<and> a \<in> set sectionIds \<and>
          getElementById doc a = Some e \<and> rect_top e \<le> offset \<and>
          (\<forall>j\<in>set sectionIds. \<forall>e'. getElementById doc j = Some e' \<and> rect_top e' \<le> offset
              \<longrightarrow> rect_top e' \<le> rect_top e))) \<and>
   handler ((\<lambda>_. None)(''about'' \<mapsto> \<lparr>rect_top = - 50\<rparr>, ''skills'' \<mapsto> \<lparr>rect_top = 30\<rparr>))
     [''about'', ''skills''] 120 active = Inr ''skills''"
proof (intro conjI impI)
  assume "\<exists>i\<in>set sectionIds. \<exists>e. getElementById doc i = Some e \<and> rect_top e \<le> offset"
  then obtain i e where "i \<in> set sectionIds" "getElementById doc i = Some e" "rect_top e \<le> offset"
    by blast
  from handler_some_qualify [OF this]
  show "\<exists>a e. handler doc sectionIds offset active = Inr a \<and> a \<in> set sectionIds \<and>
          getElementById doc a = Some e \<and> rect_top e \<le> offset \<and>
          (\<forall>j\<in>set sectionIds. \<forall>e'. getElementById doc j = Some e' \<and> rect_top e' \<le> offset
              \<longrightarrow> rect_top e' \<le> rect_top e)" .
next
  show "handler ((\<lambda>_. None)(''about'' \<mapsto> \<lparr>rect_top = - 50\<rparr>, ''skills'' \<mapsto> \<lparr>rect_top = 30\<rparr>))
     [''about'', ''skills''] 120 active = Inr ''skills''"
    by (simp add: handler_def positions_def position_of_def getBoundingClientRect_top_def
        getElementById_def current_def)
qed

theorem scroll_spy_selects_largest_qualifying_witness:
  "(\<exists>i\<in>set [''top'', ''about'', ''skills'', ''projects''].
      \<exists>e. getElementById ((\<lambda>_. None)(''top'' \<mapsto> \<lparr>rect_top = - 900\<rparr>,
              ''about'' \<mapsto> \<lparr>rect_top = - 300\<rparr>, ''skills'' \<mapsto> \<lparr>rect_top = 100\<rparr>,
              ''projects'' \<mapsto> \<lparr>rect_top = 700\<rparr>)) i = Some e \<and> rect_top e \<le> 140) \<and>
   handler ((\<lambda>_. None)(''top'' \<mapsto> \<lparr>rect_top = - 900\<rparr>,
              ''about'' \<mapsto> \<lparr>rect_top = - 300\<rparr>, ''skills'' \<mapsto> \<lparr>rect_top = 100\<rparr>,
              ''projects'' \<mapsto> \<lparr>rect_top = 700\<rparr>))
      [''top'', ''about'', ''skills'', ''projects''] 140 ''top'' = Inr ''skills''"
proof -
  let ?doc = "(\<lambda>_. None)(''top'' \<mapsto> \<lparr>rect_top = - 900\<rparr>,
              ''about'' \<mapsto> \<lparr>rect_top = - 300\<rparr>, ''skills'' \<mapsto> \<lparr>rect_top = 100\<rparr>,
              ''projects'' \<mapsto> \<lparr>rect_top = 700\<rparr>)"
  let ?ids = "[''top'', ''about'', ''skills'', ''projects'']"
  have h: "\<exists>i\<in>set ?ids. \<exists>e. getElementById ?doc i = Some e \<and> rect_top e \<le> 140"
    by (simp add: getElementById_def)
  from scroll_spy_selects_largest_qualifying [of ?ids ?doc 140 "''top''", THEN conjunct1, THEN mp, OF h]
  obtain a e where a: "handler ?doc ?ids 140 ''top'' = Inr a" "a \<in> set ?ids"
    "getElementById ?doc a = Some e" "rect_top e \<le> 140"
    "\<forall>j\<in>set ?ids. \<forall>e'. getElementById ?doc j = Some e' \<and> rect_top e' \<le> 140
              \<longrightarrow> rect_top e' \<le> rect_top e"
    by blast
  have sk: "getElementById ?doc ''skills'' = Some \<lparr>rect_top = 100\<rparr>"
    by (simp add: getElementById_def)
  from a(5) sk have "100 \<le> rect_top e" by auto
  with a(2,3,4) have "a = ''skills''"
    by (auto simp: getElementById_def)
  with a(1) h show ?thesis by simp
qed

text \<open>
  C2, as stated for every configured list, fails for the empty list: the hook then holds
  the empty string, which is not a member of the list.
\<close>

theorem active_section_member_counterexample:
  "useScrollSpy [] default_offset [\<lambda>_. None] = Inr [] \<and> [] \<notin> set ([] :: string list)"
  by (simp add: useScrollSpy_def initial_active_def handler_def positions_def current_def)

text \<open>
  C2, amended. For every non-empty list of section identifiers, every offset and every
  sequence of pages seen at mount and at the scroll events (elements may be missing),
  the hook never fails and the active identifier it holds is a member of the list.
\<close>

theorem active_section_member:
  "sectionIds \<noteq> [] \<longrightarrow>
     (\<exists>a. useScrollSpy sectionIds offset docs = Inr a \<and> a \<in> set sectionIds)"
proof
  assume "sectionIds \<noteq> []"
  then obtain first rest where "sectionIds = first # rest" by (cases sectionIds) auto
  then have "initial_active sectionIds \<in> set sectionIds"
    by (simp add: initial_active_Cons)
  from scroll_events_member [OF this]
  show "\<exists>a. useScrollSpy sectionIds offset docs = Inr a \<and> a \<in> set sectionIds"
    by (simp add: useScrollSpy_def)
qed

theorem active_section_member_witness:
  "[''top'', ''about'', ''ghost''] \<noteq> [] \<and>
   useScrollSpy [''top'', ''about'', ''ghost''] 140
     [(\<lambda>_. None)(''top'' \<mapsto> \<lparr>rect_top = 0\<rparr>, ''about'' \<mapsto> \<lparr>rect_top = 600\<rparr>),
      (\<lambda>_. None)(''top'' \<mapsto> \<lparr>rect_top = - 500\<rparr>, ''about'' \<mapsto> \<lparr>rect_top = 100\<rparr>),
      (\<lambda>_. None)(''top'' \<mapsto> \<lparr>rect_top = 400\<rparr>, ''about'' \<mapsto> \<lparr>rect_top = 1000\<rparr>)]
     = Inr ''about'' \<and>
   ''about'' \<in> set [''top'', ''about'', ''ghost'']"
  using active_section_member [of "[''top'', ''about'', ''ghost'']" 140
     "[(\<lambda>_. None)(''top'' \<mapsto> \<lparr>rect_top = 0\<rparr>, ''about'' \<mapsto> \<lparr>rect_top = 600\<rparr>),
      (\<lambda>_. None)(''top'' \<mapsto> \<lparr>rect_top = - 500\<rparr>, ''about'' \<mapsto> \<lparr>rect_top = 100\<rparr>),
      (\<lambda>_. None)(''top'' \<mapsto> \<lparr>rect_top = 400\<rparr>, ''about'' \<mapsto> \<lparr>rect_top = 1000\<rparr>)]"]
  by (simp add: useScrollSpy_def initial_active_def handler_def positions_def position_of_def
      getBoundingClientRect_top_def getElementById_def current_def)

text \<open>
  C6. The state starts as the first configured section; a run of the handler on a page
  where no configured section is at or below the offset leaves the active identifier as
  it was; so after mount and any number of scroll events on such pages the active
  section is still the first configured one.
\<close>

theorem scroll_spy_default_and_no_qualify:
  "initial_active (first # rest) = first \<and>
   ((\<forall>i\<in>set sectionIds. \<forall>e. getElementById doc i = Some e \<longrightarrow> \<not> rect_top e \<le> offset) \<longrightarrow>
      handler doc sectionIds offset active = Inr active) \<and>
   ((\<forall>d\<in>set docs. \<forall>i\<in>set (first # rest). \<forall>e.
        getElementById d i = Some e \<longrightarrow> \<not> rect_top e \<le> offset) \<longrightarrow>
      useScrollSpy (first # rest) offset docs = Inr first)"
proof (intro conjI impI)
  show "initial_active (first # rest) = first" by (rule initial_active_Cons)
next
  assume "\<forall>i\<in>set sectionIds. \<forall>e. getElementById doc i = Some e \<longrightarrow> \<not> rect_top e \<le> offset"
  then show "handler doc sectionIds offset active = Inr active" by (rule handler_none_qualify)
next
  assume "\<forall>d\<in>set docs. \<forall>i\<in>set (first # rest). \<forall>e.
        getElementById d i = Some e \<longrightarrow> \<not> rect_top e \<le> offset"
  then have "scroll_events (first # rest) offset docs first = Inr first"
    by (rule scroll_events_none_qualify)
  then show "useScrollSpy (first # rest) offset docs = Inr first"
    by (simp add: useScrollSpy_def initial_active_Cons)
qed

theorem scroll_spy_default_and_no_qualify_witness:
  "\<not> (\<exists>d\<in>set [(\<lambda>_. None)(''about'' \<mapsto> \<lparr>rect_top = 400\<rparr>, ''skills'' \<mapsto> \<lparr>rect_top = 900\<rparr>)].
      \<exists>i\<in>set [''about'', ''skills'']. \<exists>e.
        getElementById d i = Some e \<and> rect_top e \<le> 140) \<and>
   handler ((\<lambda>_. None)(''about'' \<mapsto> \<lparr>rect_top = 400\<rparr>, ''skills'' \<mapsto> \<lparr>rect_top = 900\<rparr>))
     [''about'', ''skills''] 140 ''skills'' = Inr ''skills'' \<and>
   useScrollSpy [''about'', ''skills''] 140
     [(\<lambda>_. None)(''about'' \<mapsto> \<lparr>rect_top = 400\<rparr>, ''skills'' \<mapsto> \<lparr>rect_top = 900\<rparr>)]
     = Inr ''about''"
proof -
  let ?d = "(\<lambda>_. None)(''about'' \<mapsto> \<lparr>rect_top = 400\<rparr>, ''skills'' \<mapsto> \<lparr>rect_top = 900\<rparr>)"
  have h1: "\<forall>i\<in>set [''about'', ''skills'']. \<forall>e.
        getElementById ?d i = Some e \<longrightarrow> \<not> rect_top e \<le> 140"
    by (auto simp: getElementById_def)
  then have h2: "\<forall>d\<in>set [?d]. \<forall>i\<in>set [''about'', ''skills'']. \<forall>e.
        getElementById d i = Some e \<longrightarrow> \<not> rect_top e \<le> 140"
    by simp
  note t = scroll_spy_default_and_no_qualify [of "''about''" "[''skills'']"
      "[''about'', ''skills'']" ?d 140 "''skills''" "[?d]"]
  from t h1 have "handler ?d [''about'', ''skills''] 140 ''skills'' = Inr ''skills''"
    by blast
  moreover from t h2 have "useScrollSpy [''about'', ''skills''] 140 [?d] = Inr ''about''"
    by blast
  moreover from h2 have "\<not> (\<exists>d\<in>set [?d]. \<exists>i\<in>set [''about'', ''skills'']. \<exists>e.
        getElementById d i = Some e \<and> rect_top e \<le> 140)"
    by blast
  ultimately show ?thesis by blast
qed

text \<open>
  C8. A run of the handler never fails, whichever elements are missing; and an
  identifier with no element changes nothing: the run gives what it gives on the list
  with that identifier removed.
\<close>

theorem missing_region_skipped:
  "(\<exists>a. handler doc sectionIds offset active = Inr a) \<and>
   (getElementById doc i = None \<longrightarrow>
      handler doc sectionIds offset active = handler doc (removeAll i sectionIds) offset active)"
proof (intro conjI impI)
  show "\<exists>a. handler doc sectionIds offset active = Inr a"
  proof (cases "\<exists>j\<in>set sectionIds. \<exists>e. getElementById doc j = Some e \<and> rect_top e \<le> offset")
    case True
    then obtain j e where "j \<in> set sectionIds" "getElementById doc j = Some e" "rect_top e \<le> offset"
      by blast
    from handler_some_qualify [OF this] show ?thesis by blast
  next
    case False
    then have "handler doc sectionIds offset active = Inr active"
      by (intro handler_none_qualify) blast
    then show ?thesis by blast
  qed
next
  assume "getElementById doc i = None"
  then show "handler doc sectionIds offset active = handler doc (removeAll i sectionIds) offset active"
    by (rule handler_skips_missing)
qed

theorem missing_region_skipped_witness:
  "getElementById ((\<lambda>_. None)(''about'' \<mapsto> \<lparr>rect_top = - 50\<rparr>, ''skills'' \<mapsto> \<lparr>rect_top = 30\<rparr>))
      ''ghost'' = None \<and>
   handler ((\<lambda>_. None)(''about'' \<mapsto> \<lparr>rect_top = - 50\<rparr>, ''skills'' \<mapsto> \<lparr>rect_top = 30\<rparr>))
      [''about'', ''ghost'', ''skills'', ''ghost''] 120 ''about'' =
   handler ((\<lambda>_. None)(''about'' \<mapsto> \<lparr>rect_top = - 50\<rparr>, ''skills'' \<mapsto> \<lparr>rect_top = 30\<rparr>))
      [''about'', ''skills''] 120 ''about''"
  using missing_region_skipped [of
      "(\<lambda>_. None)(''about'' \<mapsto> \<lparr>rect_top = - 50\<rparr>, ''skills'' \<mapsto> \<lparr>rect_top = 30\<rparr>)"
      "[''about'', ''ghost'', ''skills'', ''ghost'']" 120 "''about''" "''ghost''"]
  by (simp add: getElementById_def)

text \<open>
  C10. With an empty list of section identifiers the state starts as the empty string,
  every run of the handler leaves it the empty string, so it is the empty string after
  mount and any scroll events, and it is not a member of the (empty) list.
\<close>

theorem empty_configuration:
  "initial_active [] = [] \<and>
   handler doc [] offset [] = Inr [] \<and>
   useScrollSpy [] offset docs = Inr [] \<and>
   [] \<notin> set ([] :: string list)"
  by (simp add: initial_active_def useScrollSpy_def scroll_events_empty
      handler_def positions_def current_def)

section \<open>Facts about the search\<close>

text \<open>
  \<open>sublist xs ys\<close> says that \<open>ys = ps @ xs @ ss\<close> for some \<open>ps\<close> and \<open>ss\<close>: \<open>xs\<close> is a
  substring of \<open>ys\<close>.
\<close>

lemma js_includes_iff_sublist: "js_includes s query \<longleftrightarrow> sublist query s"
  by (induction s) (simp_all add: sublist_Cons_right)

lemma matches_query_iff_sublist:
  "matches_query U query x \<longleftrightarrow> sublist query (toLowerCase U (result_label x))"
  by (simp add: matches_query_def js_includes_iff_sublist)

lemma trim_Nil: "trim [] = []"
  by (simp add: trim_def)

lemma toLowerCase_Nil: "toLowerCase U [] = []"
  by (simp add: toLowerCase_def)

lemma results_empty_query:
  "results U [] sections projects =
     take 10 (map section_result sections @ map project_result projects)"
  by (simp add: results_def sec_def proj_def matches_query_def trim_Nil toLowerCase_Nil)

text \<open>
  What \<open>trim\<close> removes is white space at the two ends, and what it leaves has none at
  either end.
\<close>

lemma trim_decompose:
  "\<exists>a b. s = a @ trim s @ b \<and> list_all is_whitespace a \<and> list_all is_whitespace b"
proof -
  let ?d = "dropWhile is_whitespace s"
  have "rev (takeWhile is_whitespace (rev ?d) @ dropWhile is_whitespace (rev ?d)) = rev (rev ?d)"
    by (simp only: takeWhile_dropWhile_id)
  then have d: "?d = trim s @ rev (takeWhile is_whitespace (rev ?d))"
    by (simp only: rev_append rev_rev_ident trim_def)
  have "s = takeWhile is_whitespace s @ ?d" by simp
  with d have "s = takeWhile is_whitespace s @ trim s @ rev (takeWhile is_whitespace (rev ?d))"
    by simp
  moreover have "list_all is_whitespace (takeWhile is_whitespace s)"
    by (auto simp: list_all_iff dest: set_takeWhileD)
  moreover have "list_all is_whitespace (rev (takeWhile is_whitespace (rev ?d)))"
    by (auto simp: list_all_iff dest: set_takeWhileD)
  ultimately show ?thesis by blast
qed

lemma trim_ends:
  assumes "trim s \<noteq> []"
  shows "\<not> is_whitespace (hd (trim s))" and "\<not> is_whitespace (last (trim s))"
proof -
  let ?d = "dropWhile is_whitespace s"
  let ?e = "dropWhile is_whitespace (rev ?d)"
  from assms have e: "?e \<noteq> []" by (simp add: trim_def)
  then have "\<not> is_whitespace (hd ?e)" by (rule hd_dropWhile)
  with e show "\<not> is_whitespace (last (trim s))" by (simp add: trim_def last_rev)
  have d: "?d \<noteq> []"
  proof
    assume "?d = []"
    then have "?e = []" by (simp only: rev.simps dropWhile.simps)
    with e show False by simp
  qed
  then have nd: "\<not> is_whitespace (hd ?d)" by (rule hd_dropWhile)
  have "rev (takeWhile is_whitespace (rev ?d) @ dropWhile is_whitespace (rev ?d)) = rev (rev ?d)"
    by (simp only: takeWhile_dropWhile_id)
  then have "?d = trim s @ rev (takeWhile is_whitespace (rev ?d))"
    by (simp only: rev_append rev_rev_ident trim_def)
  then have "hd ?d = hd (trim s @ rev (takeWhile is_whitespace (rev ?d)))"
    by (rule arg_cong)
  also from assms have "\<dots> = hd (trim s)" by (rule hd_append2)
  finally have "hd ?d = hd (trim s)" .
  with nd show "\<not> is_whitespace (hd (trim s))" by simp
qed

section \<open>Claims about the search\<close>

text \<open>
  C3. For the empty query nothing is filtered out: the results are the first ten of all
  sections, in their order, followed by all projects, in their order. With two sections
  and one project all three are returned, the sections first.
\<close>

theorem search_empty_query:
  "results U [] sections projects =
     take 10 (map section_result sections @ map project_result projects) \<and>
   results U [] [s1, s2] [p1] = [section_result s1, section_result s2, project_result p1]"
  by (simp add: results_empty_query)

text \<open>
  C4. For every query and every two lists the results have at most ten entries, and
  exactly ten when more than ten candidates match. The results are the first entries
  of the matching sections followed by the matching projects, and those are in the
  order of the input lists, sections before projects; nothing fails when entries are
  dropped, the result is a list in every case.
\<close>

theorem search_truncation:
  "length (results U q sections projects) \<le> 10 \<and>
   (10 < length (sec U (toLowerCase U (trim q)) sections) +
         length (proj U (toLowerCase U (trim q)) projects)
      \<longrightarrow> length (results U q sections projects) = 10) \<and>
   prefix (results U q sections projects)
     (sec U (toLowerCase U (trim q)) sections @ proj U (toLowerCase U (trim q)) projects) \<and>
   subseq (sec U (toLowerCase U (trim q)) sections @ proj U (toLowerCase U (trim q)) projects)
     (map section_result sections @ map project_result projects)"
proof (intro conjI impI)
  show "length (results U q sections projects) \<le> 10"
    by (simp add: results_def Let_def del: take_append)
next
  assume "10 < length (sec U (toLowerCase U (trim q)) sections) +
               length (proj U (toLowerCase U (trim q)) projects)"
  then show "length (results U q sections projects) = 10"
    by (simp add: results_def Let_def del: take_append)
next
  show "prefix (results U q sections projects)
     (sec U (toLowerCase U (trim q)) sections @ proj U (toLowerCase U (trim q)) projects)"
    unfolding results_def Let_def by (rule take_is_prefix)
next
  show "subseq (sec U (toLowerCase U (trim q)) sections @ proj U (toLowerCase U (trim q)) projects)
     (map section_result sections @ map project_result projects)"
    unfolding sec_def proj_def by (intro list_emb_append_mono subseq_filter_left)
qed

theorem search_truncation_witness:
  "10 < length (sec (\<lambda>s. s) (toLowerCase (\<lambda>s. s) (trim (ascii '' E'')))
            (map (\<lambda>c. \<lparr>section_id = [c], section_label = ascii ''Section''\<rparr>) ''abcdefghi'')) +
        length (proj (\<lambda>s. s) (toLowerCase (\<lambda>s. s) (trim (ascii '' E'')))
            (map (\<lambda>c. \<lparr>project_id = [c], project_name = ascii ''Project''\<rparr>) ''uvwxyz'')) \<and>
   length (results (\<lambda>s. s) (ascii '' E'')
      (map (\<lambda>c. \<lparr>section_id = [c], section_label = ascii ''Section''\<rparr>) ''abcdefghi'')
      (map (\<lambda>c. \<lparr>project_id = [c], project_name = ascii ''Project''\<rparr>) ''uvwxyz'')) = 10 \<and>
   results (\<lambda>s. s) (ascii '' E'')
      (map (\<lambda>c. \<lparr>section_id = [c], section_label = ascii ''Section''\<rparr>) ''abcdefghi'')
      (map (\<lambda>c. \<lparr>project_id = [c], project_name = ascii ''Project''\<rparr>) ''uvwxyz'') =
     map (\<lambda>c. \<lparr>result_type = ''section'', result_id = [c], result_label = ascii ''Section''\<rparr>)
       ''abcdefghi'' @
     [\<lparr>result_type = ''project'', result_id = ''u'', result_label = ascii ''Project''\<rparr>]"
proof -
  let ?U = "\<lambda>s :: js_string. s"
  let ?S = "map (\<lambda>c. \<lparr>section_id = [c], section_label = ascii ''Section''\<rparr>) ''abcdefghi''"
  let ?P = "map (\<lambda>c. \<lparr>project_id = [c], project_name = ascii ''Project''\<rparr>) ''uvwxyz''"
  have q: "toLowerCase ?U (trim (ascii '' E'')) = ascii ''e''"
    by (simp add: ascii_def toLowerCase_def toLowerCase_ascii_def is_ascii_def trim_def
        is_whitespace_def)
  have s: "sec ?U (ascii ''e'') ?S = map section_result ?S"
    by (simp add: sec_def matches_query_def section_result_def ascii_def toLowerCase_def
        toLowerCase_ascii_def is_ascii_def)
  have p: "proj ?U (ascii ''e'') ?P = map project_result ?P"
    by (simp add: proj_def matches_query_def project_result_def ascii_def toLowerCase_def
        toLowerCase_ascii_def is_ascii_def)
  have h: "10 < length (sec ?U (toLowerCase ?U (trim (ascii '' E''))) ?S) +
        length (proj ?U (toLowerCase ?U (trim (ascii '' E''))) ?P)"
    by (simp only: q s p) simp
  from search_truncation [of ?U "ascii '' E''" ?S ?P] h
  have l: "length (results ?U (ascii '' E'') ?S ?P) = 10" by blast
  have r: "results ?U (ascii '' E'') ?S ?P =
     map (\<lambda>c. \<lparr>result_type = ''section'', result_id = [c], result_label = ascii ''Section''\<rparr>)
       ''abcdefghi'' @
     [\<lparr>result_type = ''project'', result_id = ''u'', result_label = ascii ''Project''\<rparr>]"
    unfolding results_def Let_def q s p by (simp add: section_result_def project_result_def)
  from h l r show ?thesis by blast
qed

text \<open>
  C5. For every query, every section and project and every Unicode case mapping of the
  engine: the results are the first ten of the sections, then the projects, whose
  lower-cased label or name has the trimmed and lower-cased query as a substring.
  Trimmed: the query is white space, then the trimmed query, then white space, and
  the trimmed query neither starts nor ends with white space. Lower-cased: on ASCII
  the capital letters, and only they, are replaced by the small ones. The query PORT
  finds the project Interactive Portfolio Website and not the section Home; so does
  the query PoRt with a no-break space and a space before it and a tab and an
  ideographic space after it; and a no-break space followed by re finds the section
  Resume.
\<close>

theorem search_normalization:
  "results U q sections projects =
     take 10
       (map section_result
          (filter (\<lambda>s. sublist (toLowerCase U (trim q)) (toLowerCase U (section_label s)))
             sections) @
        map project_result
          (filter (\<lambda>p. sublist (toLowerCase U (trim q)) (toLowerCase U (project_name p)))
             projects)) \<and>
   (\<exists>a b. q = a @ trim q @ b \<and> list_all is_whitespace a \<and> list_all is_whitespace b) \<and>
   (trim q \<noteq> [] \<longrightarrow> \<not> is_whitespace (hd (trim q)) \<and> \<not> is_whitespace (last (trim q))) \<and>
   toLowerCase U (ascii ''@ABCDEFGHIJKLMNOPQRSTUVWXYZ[ `az{ 09'') =
     ascii ''@abcdefghijklmnopqrstuvwxyz[ `az{ 09'' \<and>
   results U (ascii ''PORT'') [\<lparr>section_id = ''top'', section_label = ascii ''Home''\<rparr>]
       [\<lparr>project_id = ''portfolio'', project_name = ascii ''Interactive Portfolio Website''\<rparr>] =
     [\<lparr>result_type = ''project'', result_id = ''portfolio'',
       result_label = ascii ''Interactive Portfolio Website''\<rparr>] \<and>
   results U ([0x00A0] @ ascii '' PoRt'' @ [0x0009, 0x3000])
       [\<lparr>section_id = ''top'', section_label = ascii ''Home''\<rparr>]
       [\<lparr>project_id = ''portfolio'', project_name = ascii ''Interactive Portfolio Website''\<rparr>] =
     [\<lparr>result_type = ''project'', result_id = ''portfolio'',
       result_label = ascii ''Interactive Portfolio Website''\<rparr>] \<and>
   results U ([0x00A0] @ ascii ''re'')
       [\<lparr>section_id = ''about'', section_label = ascii ''About''\<rparr>,
        \<lparr>section_id = ''resume'', section_label = ascii ''Resume''\<rparr>] [] =
     [\<lparr>result_type = ''section'', result_id = ''resume'', result_label = ascii ''Resume''\<rparr>]"
proof (intro conjI impI)
  show "results U q sections projects =
     take 10
       (map section_result
          (filter (\<lambda>s. sublist (toLowerCase U (trim q)) (toLowerCase U (section_label s)))
             sections) @
        map project_result
          (filter (\<lambda>p. sublist (toLowerCase U (trim q)) (toLowerCase U (project_name p)))
             projects))"
    by (simp add: results_def Let_def sec_def proj_def filter_map comp_def
        matches_query_iff_sublist section_result_def project_result_def del: take_append)
next
  show "\<exists>a b. q = a @ trim q @ b \<and> list_all is_whitespace a \<and> list_all is_whitespace b"
    by (rule trim_decompose)
next
  assume "trim q \<noteq> []"
  then show "\<not> is_whitespace (hd (trim q))" and "\<not> is_whitespace (last (trim q))"
    by (rule trim_ends)+
next
  show "toLowerCase U (ascii ''@ABCDEFGHIJKLMNOPQRSTUVWXYZ[ `az{ 09'') =
     ascii ''@abcdefghijklmnopqrstuvwxyz[ `az{ 09''"
    by (simp add: ascii_def toLowerCase_def toLowerCase_ascii_def is_ascii_def)
next
  show "results U (ascii ''PORT'') [\<lparr>section_id = ''top'', section_label = ascii ''Home''\<rparr>]
       [\<lparr>project_id = ''portfolio'', project_name = ascii ''Interactive Portfolio Website''\<rparr>] =
     [\<lparr>result_type = ''project'', result_id = ''portfolio'',
       result_label = ascii ''Interactive Portfolio Website''\<rparr>]"
    by (simp add: results_def sec_def proj_def matches_query_def section_result_def
        project_result_def ascii_def toLowerCase_def toLowerCase_ascii_def is_ascii_def
        trim_def is_whitespace_def)
next
  show "results U ([0x00A0] @ ascii '' PoRt'' @ [0x0009, 0x3000])
       [\<lparr>section_id = ''top'', section_label = ascii ''Home''\<rparr>]
       [\<lparr>project_id = ''portfolio'', project_name = ascii ''Interactive Portfolio Website''\<rparr>] =
     [\<lparr>result_type = ''project'', result_id = ''portfolio'',
       result_label = ascii ''Interactive Portfolio Website''\<rparr>]"
    by (simp add: results_def sec_def proj_def matches_query_def section_result_def
        project_result_def ascii_def toLowerCase_def toLowerCase_ascii_def is_ascii_def
        trim_def is_whitespace_def)
next
  show "results U ([0x00A0] @ ascii ''re'')
       [\<lparr>section_id = ''about'', section_label = ascii ''About''\<rparr>,
        \<lparr>section_id = ''resume'', section_label = ascii ''Resume''\<rparr>] [] =
     [\<lparr>result_type = ''section'', result_id = ''resume'', result_label = ascii ''Resume''\<rparr>]"
    by (simp add: results_def sec_def proj_def matches_query_def section_result_def
        project_result_def ascii_def toLowerCase_def toLowerCase_ascii_def is_ascii_def
        trim_def is_whitespace_def)
qed

theorem search_normalization_witness:
  "trim ([0x2003] @ ascii ''Port folio'' @ [0x000A, 0xFEFF]) = ascii ''Port folio'' \<and>
   trim ([0x2003] @ ascii ''Port folio'' @ [0x000A, 0xFEFF]) \<noteq> [] \<and>
   \<not> is_whitespace (hd (trim ([0x2003] @ ascii ''Port folio'' @ [0x000A, 0xFEFF]))) \<and>
   \<not> is_whitespace (last (trim ([0x2003] @ ascii ''Port folio'' @ [0x000A, 0xFEFF]))) \<and>
   results (\<lambda>s. s) ([0x2003] @ ascii ''Port folio'' @ [0x000A, 0xFEFF])
       [\<lparr>section_id = ''top'', section_label = ascii ''Home''\<rparr>]
       [\<lparr>project_id = ''portfolio'', project_name = ascii ''Interactive Portfolio Website''\<rparr>] = []"
proof -
  let ?q = "[0x2003] @ ascii ''Port folio'' @ [0x000A, 0xFEFF]"
  let ?S = "[\<lparr>section_id = ''top'', section_label = ascii ''Home''\<rparr>]"
  let ?P = "[\<lparr>project_id = ''portfolio'',
               project_name = ascii ''Interactive Portfolio Website''\<rparr>]"
  note t = search_normalization [of "\<lambda>s. s" ?q ?S ?P]
  have tq: "trim ?q = ascii ''Port folio''"
    by (simp add: ascii_def trim_def is_whitespace_def)
  then have ne: "trim ?q \<noteq> []" by (simp add: ascii_def)
  from t ne have e: "\<not> is_whitespace (hd (trim ?q))" "\<not> is_whitespace (last (trim ?q))"
    by blast+
  from t have "results (\<lambda>s. s) ?q ?S ?P =
     take 10
       (map section_result
          (filter (\<lambda>s. sublist (toLowerCase (\<lambda>s. s) (trim ?q))
                     (toLowerCase (\<lambda>s. s) (section_label s))) ?S) @
        map project_result
          (filter (\<lambda>p. sublist (toLowerCase (\<lambda>s. s) (trim ?q))
                     (toLowerCase (\<lambda>s. s) (project_name p))) ?P))"
    by (rule conjunct1)
  also have "\<dots> = []"
    unfolding tq
    by (simp add: ascii_def toLowerCase_def toLowerCase_ascii_def is_ascii_def
        sublist_code prefix_code)
  finally have r: "results (\<lambda>s. s) ?q ?S ?P = []" .
  from tq ne e r show ?thesis by blast
qed

section \<open>Facts about the palette\<close>

text \<open>A closed palette has an empty query: the effect has reset it.\<close>

lemma palette_step_closed_empty:
  assumes "\<not> paletteOpen s \<longrightarrow> palette_q s = []"
  shows "\<not> paletteOpen (palette_step s ev) \<longrightarrow> palette_q (palette_step s ev) = []"
  using assms by (cases ev) (auto simp: palette_step_def reset_effect_def Let_def)

lemma foldl_palette_step_closed_empty:
  assumes "\<not> paletteOpen s \<longrightarrow> palette_q s = []"
  shows "\<not> paletteOpen (foldl palette_step s evs) \<longrightarrow>
         palette_q (foldl palette_step s evs) = []"
  using assms
proof (induction evs arbitrary: s)
  case Nil
  then show ?case by simp
next
  case (Cons ev evs)
  from palette_step_closed_empty [OF Cons.prems]
  have "\<not> paletteOpen (palette_step s ev) \<longrightarrow> palette_q (palette_step s ev) = []" .
  from Cons.IH [OF this] show ?case by simp
qed

lemma palette_run_closed_empty:
  "\<not> paletteOpen (palette_run evs) \<longrightarrow> palette_q (palette_run evs) = []"
  unfolding palette_run_def
  by (rule foldl_palette_step_closed_empty) (simp add: palette_mount_def reset_effect_def)

lemma palette_step_opening_keeps_query:
  assumes "\<not> paletteOpen s" and "paletteOpen (palette_step s ev)"
  shows "palette_q (palette_step s ev) = palette_q s"
  using assms by (cases ev) (auto simp: palette_step_def reset_effect_def Let_def)

section \<open>Claims about the palette\<close>

text \<open>
  C9. After any sequence of events, if the palette is closed then the shortcut and the
  search button open it, and whenever an event takes it from closed to open the query
  is the empty string, whatever was typed before it was last closed.
\<close>

theorem overlay_query_reset:
  "(\<not> paletteOpen (palette_run evs) \<longrightarrow>
      paletteOpen (palette_step (palette_run evs) ShortcutK) \<and>
      paletteOpen (palette_step (palette_run evs) SearchButton)) \<and>
   (\<not> paletteOpen (palette_run evs) \<and> paletteOpen (palette_step (palette_run evs) ev) \<longrightarrow>
      palette_q (palette_step (palette_run evs) ev) = [])"
proof (intro conjI impI)
  assume "\<not> paletteOpen (palette_run evs)"
  then show "paletteOpen (palette_step (palette_run evs) ShortcutK)"
    and "paletteOpen (palette_step (palette_run evs) SearchButton)"
    by (simp_all add: palette_step_def reset_effect_def)
next
  assume a: "\<not> paletteOpen (palette_run evs) \<and> paletteOpen (palette_step (palette_run evs) ev)"
  then have "palette_q (palette_step (palette_run evs) ev) = palette_q (palette_run evs)"
    by (intro palette_step_opening_keeps_query) simp_all
  also from a have "\<dots> = []" using palette_run_closed_empty [of evs] by simp
  finally show "palette_q (palette_step (palette_run evs) ev) = []" .
qed

theorem overlay_query_reset_witness:
  "palette_run [ShortcutK, Typing ''port''] = \<lparr>paletteOpen = True, palette_q = ''port''\<rparr> \<and>
   \<not> paletteOpen (palette_run [ShortcutK, Typing ''port'', Escape]) \<and>
   paletteOpen (palette_step (palette_run [ShortcutK, Typing ''port'', Escape]) SearchButton) \<and>
   palette_q (palette_step (palette_run [ShortcutK, Typing ''port'', Escape]) SearchButton) = []"
proof -
  have r: "palette_run [ShortcutK, Typing ''port''] = \<lparr>paletteOpen = True, palette_q = ''port''\<rparr>"
    by (simp add: palette_run_def palette_mount_def palette_step_def reset_effect_def)
  have c: "\<not> paletteOpen (palette_run [ShortcutK, Typing ''port'', Escape])"
    by (simp add: palette_run_def palette_mount_def palette_step_def reset_effect_def)
  note t = overlay_query_reset [of "[ShortcutK, Typing ''port'', Escape]" SearchButton]
  from t c have p: "paletteOpen (palette_step (palette_run [ShortcutK, Typing ''port'', Escape]) SearchButton)"
    by blast
  from t c p have "palette_q (palette_step (palette_run [ShortcutK, Typing ''port'', Escape]) SearchButton) = []"
    by blast
  with r c p show ?thesis by blast
qed

section \<open>Facts about the theme\<close>

text \<open>
  The application of the single-file component resolves the theme from the storage,
  then from \<^verbatim>\<open>matchMedia\<close>, then to light, and a toggle is read back at the next mount.
\<close>

lemma theme_effect_stored:
  "localStorage (theme_effect d s) ''theme'' = Some (if d then ''dark'' else ''light'')"
  and "dark (theme_effect d s) = dark s"
  by (simp_all add: theme_effect_def)

lemma App_mount_dark: "dark (App_mount ls mm) = initial_dark ls mm"
  by (simp add: App_mount_def Let_def theme_effect_def)

lemma App_mount_stored:
  "localStorage (App_mount ls mm) ''theme'' =
     Some (if dark (App_mount ls mm) then ''dark'' else ''light'')"
  by (simp add: App_mount_def Let_def theme_effect_def)

lemma App_theme_resolution:
  "ls ''theme'' = Some t \<Longrightarrow> t \<noteq> [] \<Longrightarrow> dark (App_mount ls mm) = (t = ''dark'')"
  "ls ''theme'' = None \<Longrightarrow> mm = Some f \<Longrightarrow> f ''(prefers-color-scheme: dark)'' = Some l \<Longrightarrow>
     dark (App_mount ls mm) = matches l"
  "ls ''theme'' = None \<Longrightarrow> mm = None \<Longrightarrow> dark (App_mount ls mm) = False"
  by (simp_all add: App_mount_dark initial_dark_def)

lemma App_toggle_persists:
  "dark (App_toggle s) = (\<not> dark s)"
  "dark (App_mount (localStorage (App_toggle s)) mm) = dark (App_toggle s)"
  by (simp_all add: App_toggle_def App_mount_dark initial_dark_def theme_effect_def Let_def)

section \<open>Claims about the theme\<close>

text \<open>
  C7. Theme resolution and persistence: at startup a stored preference decides the
  theme, else the platform's colour scheme, else light; and a toggle is stored, so that
  the next startup reads it back. The application of the single-file component has
  this property (the facts above). The application of \<^verbatim>\<open>src/App.jsx\<close> does not:
  with the stored preference light it starts dark, where the other starts light; with
  nothing stored and no \<^verbatim>\<open>matchMedia\<close> it starts dark, where the other starts light;
  and a toggle to light stores nothing, so the next mount starts dark again.
\<close>

theorem App_jsx_theme_not_persisted:
  "dark (App_jsx_mount (Map.empty(''theme'' \<mapsto> ''light'')) None) = True \<and>
   dark (App_mount (Map.empty(''theme'' \<mapsto> ''light'')) None) = False \<and>
   dark (App_jsx_mount Map.empty None) = True \<and>
   dark (App_mount Map.empty None) = False \<and>
   dark (App_jsx_toggle (App_jsx_mount Map.empty None)) = False \<and>
   localStorage (App_jsx_toggle (App_jsx_mount Map.empty None)) ''theme'' = None \<and>
   dark (App_jsx_mount (localStorage (App_jsx_toggle (App_jsx_mount Map.empty None))) None) = True"
  by (simp add: App_jsx_mount_def App_jsx_toggle_def App_mount_dark initial_dark_def)

end
